theory Spec2Isabelle
  imports Main
begin

section \<open>Data model (types.ts as used by App.tsx, constants.ts)\<close>

text \<open>
  The declarations of \<open>types.ts\<close> are read off their uses in \<open>App.tsx\<close>:
  \<open>INITIAL_STATE\<close> lists every field of \<open>GameState\<close>, the \<open>switch\<close> of the game loop
  lists the four members of \<open>Direction\<close>, and \<open>deathReason\<close> is
  \<open>'WALL' | 'SELF' | null\<close> (the signature of \<open>getGameCommentary\<close>).
  JavaScript numbers are modelled as unbounded integers: the game only adds and
  subtracts small integers.
\<close>

record Coordinate =
  x :: int
  y :: int

datatype Direction = UP | DOWN | LEFT | RIGHT

datatype GameStatus = IDLE | PLAYING | PAUSED | GAME_OVER

datatype DeathReason = WALL | SELF

text \<open>A call of \<open>localStorage.setItem(key, value.toString())\<close>, with the number written.\<close>

datatype StorageCall = SetItem string int

definition GRID_SIZE :: int where
  "GRID_SIZE = 20"

definition INITIAL_SPEED :: int where
  "INITIAL_SPEED = 150"

definition MIN_SPEED :: int where
  "MIN_SPEED = 60"

definition SPEED_DECREMENT :: int where
  "SPEED_DECREMENT = 2"

section \<open>Helpers of App.tsx\<close>

text \<open>\<open>arr.some(seg => seg.x === coord.x && seg.y === coord.y)\<close>\<close>

definition isAtCoordinate :: "Coordinate \<Rightarrow> Coordinate list \<Rightarrow> bool" where
  "isAtCoordinate coord arr = list_ex (\<lambda>seg. x seg = x coord \<and> y seg = y coord) arr"

text \<open>
  \<open>generateFood\<close> draws with \<open>Math.floor(Math.random() * GRID_SIZE)\<close>, first \<open>x\<close> then
  \<open>y\<close>, until the cell drawn is not on the snake. The random source is a parameter:
  \<open>rnd k\<close> is the value of the \<open>k\<close>-th such draw, so the \<open>i\<close>-th round of the loop reads
  \<open>rnd (2 * i)\<close> and \<open>rnd (2 * i + 1)\<close>. A draw of the source lies in \<open>[0, GRID_SIZE)\<close>;
  the model takes any sequence of integers, and the facts that need the range assume it.
  The loop has no bound in the source; a run that rejects every draw never returns,
  which is the value \<open>None\<close> here.
\<close>

partial_function (option) generateFood_loop ::
  "(nat \<Rightarrow> int) \<Rightarrow> Coordinate list \<Rightarrow> nat \<Rightarrow> Coordinate option" where
  "generateFood_loop rnd snake i =
     (let newFood = \<lparr>x = rnd (2 * i), y = rnd (2 * i + 1)\<rparr>
      in if \<not> isAtCoordinate newFood snake then Some newFood
         else generateFood_loop rnd snake (i + 1))"

declare generateFood_loop.simps [code]

definition generateFood :: "(nat \<Rightarrow> int) \<Rightarrow> Coordinate list \<Rightarrow> Coordinate option" where
  "generateFood rnd snake = generateFood_loop rnd snake 0"

record GameState =
  snake :: "Coordinate list"
  food :: Coordinate
  direction :: Direction
  score :: int
  highScore :: int
  status :: GameStatus
  speed :: int
  deathReason :: "DeathReason option"

definition INITIAL_SNAKE :: "Coordinate list" where
  "INITIAL_SNAKE = [\<lparr>x = 10, y = 10\<rparr>, \<lparr>x = 10, y = 11\<rparr>, \<lparr>x = 10, y = 12\<rparr>]"

definition INITIAL_STATE :: GameState where
  "INITIAL_STATE =
     \<lparr>snake = INITIAL_SNAKE, food = \<lparr>x = 5, y = 5\<rparr>, direction = UP, score = 0,
      highScore = 0, status = IDLE, speed = INITIAL_SPEED, deathReason = None\<rparr>"

section \<open>Operations of App\<close>

text \<open>
  The component keeps two pieces of state, \<open>gameState\<close> and \<open>nextDirection\<close>. Each
  operation below is the updater the source passes to \<open>setGameState\<close>, with the values
  it reads from the closure (\<open>nextDirection\<close>, the rendered \<open>gameState\<close>) as arguments.
\<close>

definition startGame :: "(nat \<Rightarrow> int) \<Rightarrow> GameState \<Rightarrow> (GameState \<times> Direction) option" where
  "startGame rnd prev =
     (case generateFood rnd INITIAL_SNAKE of
        None \<Rightarrow> None
      | Some newFood \<Rightarrow>
          Some (INITIAL_STATE\<lparr>highScore := highScore prev, status := PLAYING, food := newFood\<rparr>,
                UP))"

text \<open>
  \<open>pauseGame\<close> tests the status of the rendered state and then updates the state
  the updater receives.
\<close>

definition pauseGame :: "GameState \<Rightarrow> GameState \<Rightarrow> GameState" where
  "pauseGame gameState prev =
     (if status gameState = PLAYING then prev\<lparr>status := PAUSED\<rparr>
      else if status gameState = PAUSED then prev\<lparr>status := PLAYING\<rparr>
      else prev)"

definition isOpposite :: "Direction \<Rightarrow> Direction \<Rightarrow> bool" where
  "isOpposite newDir currentDirection =
     ((newDir = UP \<and> currentDirection = DOWN) \<or>
      (newDir = DOWN \<and> currentDirection = UP) \<or>
      (newDir = LEFT \<and> currentDirection = RIGHT) \<or>
      (newDir = RIGHT \<and> currentDirection = LEFT))"

text \<open>
  \<open>handleDirectionChange\<close> returns \<open>current\<close> unchanged on both paths and calls
  \<open>setNextDirection(newDir)\<close> on the second: the result is the pair of the game state and
  the pending direction after the call.
\<close>

definition handleDirectionChange ::
  "Direction \<Rightarrow> GameState \<Rightarrow> Direction \<Rightarrow> GameState \<times> Direction" where
  "handleDirectionChange newDir current nextDirection =
     (if isOpposite newDir (direction current) then (current, nextDirection)
      else (current, newDir))"

text \<open>The \<open>switch (currentDir)\<close> of the game loop, applied to a copy of the head.\<close>

definition moveHead :: "Direction \<Rightarrow> Coordinate \<Rightarrow> Coordinate" where
  "moveHead currentDir head =
     (case currentDir of
        UP \<Rightarrow> head\<lparr>y := y head - 1\<rparr>
      | DOWN \<Rightarrow> head\<lparr>y := y head + 1\<rparr>
      | LEFT \<Rightarrow> head\<lparr>x := x head - 1\<rparr>
      | RIGHT \<Rightarrow> head\<lparr>x := x head + 1\<rparr>)"

text \<open>
  The updater of the game loop. It returns the next game state and the calls made to
  \<open>localStorage\<close>, or \<open>None\<close> when \<open>generateFood\<close> does not return.

  An empty \<open>snake\<close> has no head: \<open>prev.snake[0]\<close> is \<open>undefined\<close>, the copy \<open>newHead\<close>
  is \<open>{}\<close>, and the move leaves one field \<open>NaN\<close> and the other \<open>undefined\<close>. Every
  comparison of the wall check and of the food check is then false,
  \<open>isAtCoordinate\<close> of an empty array is false, and \<open>pop\<close> removes the only element
  again: the loop returns \<open>prev\<close> with the empty snake and \<open>direction: currentDir\<close>.
\<close>

definition tick ::
  "(nat \<Rightarrow> int) \<Rightarrow> Direction \<Rightarrow> GameState \<Rightarrow> (GameState \<times> StorageCall list) option" where
  "tick rnd nextDirection prev =
     (if status prev \<noteq> PLAYING then Some (prev, [])
      else case snake prev of
        [] \<Rightarrow> Some (prev\<lparr>direction := nextDirection\<rparr>, [])
      | head # _ \<Rightarrow>
         (let currentDir = nextDirection;
              newHead = moveHead currentDir head
          in if x newHead < 0 \<or> x newHead \<ge> GRID_SIZE \<or> y newHead < 0 \<or> y newHead \<ge> GRID_SIZE
             then Some (prev\<lparr>status := GAME_OVER, deathReason := Some WALL\<rparr>, [])
             else if isAtCoordinate newHead (snake prev) \<and>
                     (x newHead \<noteq> x (last (snake prev)) \<or> y newHead \<noteq> y (last (snake prev)))
             then Some (prev\<lparr>status := GAME_OVER, deathReason := Some SELF\<rparr>, [])
             else
               (let newSnake = newHead # snake prev
                in if x newHead = x (food prev) \<and> y newHead = y (food prev)
                   then
                     (case generateFood rnd newSnake of
                        None \<Rightarrow> None
                      | Some newFood \<Rightarrow>
                         (let newScore = score prev + 1;
                              newSpeed = max MIN_SPEED (speed prev - SPEED_DECREMENT)
                          in if newScore > highScore prev
                             then Some (prev\<lparr>snake := newSnake, food := newFood,
                                              score := newScore, speed := newSpeed,
                                              highScore := newScore, direction := currentDir\<rparr>,
                                        [SetItem ''snake-highscore'' newScore])
                             else Some (prev\<lparr>snake := newSnake, food := newFood,
                                              score := newScore, speed := newSpeed,
                                              highScore := highScore prev,
                                              direction := currentDir\<rparr>, [])))
                   else
                     (let popped = butlast newSnake;
                          isSelfCollision =
                            list_ex (\<lambda>seg. x seg = x newHead \<and> y seg = y newHead) (drop 1 popped)
                      in if isSelfCollision
                         then Some (prev\<lparr>status := GAME_OVER, deathReason := Some SELF\<rparr>, [])
                         else Some (prev\<lparr>snake := popped, food := food prev,
                                          score := score prev, speed := speed prev,
                                          highScore := highScore prev,
                                          direction := currentDir\<rparr>, [])))))"

section \<open>Vocabulary of the specification\<close>

text \<open>
  The data model of the specification: a coordinate of the grid has both components in
  \<open>[0, GRID_SIZE)\<close>. The wall check of the game loop is the negation of this.
\<close>

definition inGrid :: "Coordinate \<Rightarrow> bool" where
  "inGrid c = (0 \<le> x c \<and> x c < GRID_SIZE \<and> 0 \<le> y c \<and> y c < GRID_SIZE)"

text \<open>The cell that round \<open>i\<close> of \<open>generateFood\<close> draws from the random source.\<close>

definition drawn :: "(nat \<Rightarrow> int) \<Rightarrow> nat \<Rightarrow> Coordinate" where
  "drawn rnd i = \<lparr>x = rnd (2 * i), y = rnd (2 * i + 1)\<rparr>"

text \<open>
  The specification's "exact opposite" of a heading: the same axis with the sign
  reversed. It is written from the specification's words, to be compared with the four
  cases that \<open>isOpposite\<close> takes from the source.
\<close>

fun oppositeOf :: "Direction \<Rightarrow> Direction" where
  "oppositeOf UP = DOWN"
| "oppositeOf DOWN = UP"
| "oppositeOf LEFT = RIGHT"
| "oppositeOf RIGHT = LEFT"

text \<open>
  The invariants the specification's data model gives a game in progress: a body with a
  head, no two segments on one cell, every segment on the grid, the food off the body,
  and the score not above the high score.
\<close>

definition wellFormed :: "GameState \<Rightarrow> bool" where
  "wellFormed s =
     (snake s \<noteq> [] \<and> distinct (snake s) \<and> list_all inGrid (snake s) \<and>
      food s \<notin> set (snake s) \<and> score s \<le> highScore s)"

section \<open>Concrete inputs\<close>

definition cell :: "int \<Rightarrow> int \<Rightarrow> Coordinate" where
  "cell a b = \<lparr>x = a, y = b\<rparr>"

text \<open>A game in progress with the given body and food, as \<open>startGame\<close> leaves the other fields.\<close>

definition playingState :: "Coordinate list \<Rightarrow> Coordinate \<Rightarrow> GameState" where
  "playingState body f =
     \<lparr>snake = body, food = f, direction = UP, score = 0, highScore = 0,
      status = PLAYING, speed = INITIAL_SPEED, deathReason = None\<rparr>"

text \<open>A random source whose first round draws \<open>(5, 6)\<close> and whose second draws \<open>(7, 8)\<close>.\<close>

definition exampleDraws :: "nat \<Rightarrow> int" where
  "exampleDraws k = 5 + int k"

text \<open>
  A body whose head at \<open>(5, 5)\<close>, moving \<open>RIGHT\<close>, enters the cell \<open>(6, 5)\<close> of its
  own tail.
\<close>

definition ringBody :: "Coordinate list" where
  "ringBody = [cell 5 5, cell 5 6, cell 6 6, cell 6 5]"

text \<open>The same body one segment longer: \<open>(6, 5)\<close> is now the segment before the tail.\<close>

definition hookBody :: "Coordinate list" where
  "hookBody = [cell 5 5, cell 5 6, cell 6 6, cell 6 5, cell 6 4]"

text \<open>A straight body about to eat the food at \<open>(5, 4)\<close>, and the state after it ate.\<close>

definition lineBody :: "Coordinate list" where
  "lineBody = [cell 5 5, cell 5 6, cell 5 7]"

definition grownState :: GameState where
  "grownState =
     \<lparr>snake = [cell 5 4, cell 5 5, cell 5 6, cell 5 7], food = cell 7 8, direction = UP,
      score = 1, highScore = 1, status = PLAYING, speed = 148, deathReason = None\<rparr>"

text \<open>
  A snake that fills the grid but for the cell \<open>(0, 0)\<close>: it winds through the rows,
  head at \<open>(1, 0)\<close> and tail at \<open>(0, 19)\<close>, 399 segments after 396 meals, with the food
  on the last free cell and the head moving \<open>LEFT\<close> onto it.
\<close>

definition gridRow :: "nat \<Rightarrow> Coordinate list" where
  "gridRow b =
     (if even b then map (\<lambda>a. cell (int a) (int b)) [0..<20]
      else rev (map (\<lambda>a. cell (int a) (int b)) [0..<20]))"

definition fullBody :: "Coordinate list" where
  "fullBody = map (\<lambda>a. cell (int a) 0) [1..<20] @ concat (map gridRow [1..<20])"

definition fullState :: GameState where
  "fullState =
     \<lparr>snake = fullBody, food = cell 0 0, direction = LEFT, score = 396, highScore = 396,
      status = PLAYING, speed = MIN_SPEED, deathReason = None\<rparr>"

text \<open>A random source that draws every cell of the grid in turn, again and again.\<close>

definition fairDraws :: "nat \<Rightarrow> int" where
  "fairDraws k = (if even k then int (k div 2 mod 20) else int (k div 2 div 20 mod 20))"

section \<open>Facts about the helpers\<close>

lemma same_cell_iff: "(x c = x d \<and> y c = y d) = (c = d)" for c d :: Coordinate
  by auto

lemma isAtCoordinate_iff: "isAtCoordinate c arr = (c \<in> set arr)"
proof -
  have "(x seg = x c \<and> y seg = y c) = (seg = c)" for seg
    by auto
  then show ?thesis
    by (simp add: isAtCoordinate_def list_ex_iff)
qed

lemma generateFood_loop_unfold:
  "generateFood_loop rnd body i =
     (if drawn rnd i \<in> set body then generateFood_loop rnd body (Suc i)
      else Some (drawn rnd i))"
  by (subst generateFood_loop.simps) (simp add: drawn_def isAtCoordinate_iff)

text \<open>What the loop returns is a cell it drew, and that cell is off the body.\<close>

lemma generateFood_loop_sound:
  assumes "generateFood_loop rnd body i = Some c"
  shows "c \<notin> set body \<and> (\<exists>j\<ge>i. c = drawn rnd j)"
proof (rule generateFood_loop.raw_induct [OF _ assms], goal_cases)
  case (1 loop rnd body i c)
  show ?case
  proof (cases "drawn rnd i \<in> set body")
    case True
    with 1 have "c \<notin> set body \<and> (\<exists>j\<ge>i + 1. c = drawn rnd j)"
      by (simp add: drawn_def isAtCoordinate_iff)
    then show ?thesis
      by (metis add_leD1)
  next
    case False
    with 1 show ?thesis
      by (auto simp: drawn_def isAtCoordinate_iff)
  qed
qed

text \<open>The loop returns as soon as some later round draws a free cell.\<close>

lemma generateFood_loop_returns:
  assumes "drawn rnd j \<notin> set body" and "i \<le> j"
  shows "\<exists>c. generateFood_loop rnd body i = Some c"
  using assms
proof (induction "j - i" arbitrary: i)
  case 0
  then have "i = j" by simp
  with 0 show ?case
    by (subst generateFood_loop_unfold) simp
next
  case (Suc n)
  then have "\<exists>c. generateFood_loop rnd body (Suc i) = Some c"
    by simp
  then show ?case
    by (subst generateFood_loop_unfold) simp
qed

text \<open>When every round draws an occupied cell the loop never returns.\<close>

lemma generateFood_loop_diverges:
  assumes "\<And>j. drawn rnd j \<in> set body"
  shows "generateFood_loop rnd body i = None"
proof (cases "generateFood_loop rnd body i")
  case None
  then show ?thesis .
next
  case (Some c)
  then have "c \<notin> set body \<and> (\<exists>j\<ge>i. c = drawn rnd j)"
    by (rule generateFood_loop_sound)
  with assms show ?thesis
    by auto
qed

text \<open>So \<open>generateFood\<close> returns a free cell once some round draws one.\<close>

lemma generateFood_returns:
  assumes "drawn rnd j \<notin> set body"
  shows "\<exists>c. generateFood rnd body = Some c \<and> c \<notin> set body"
proof -
  from assms obtain c where "generateFood_loop rnd body 0 = Some c"
    using generateFood_loop_returns [of rnd j body 0] by auto
  moreover from this have "c \<notin> set body"
    using generateFood_loop_sound by blast
  ultimately show ?thesis
    by (simp add: generateFood_def)
qed

section \<open>The branches of the game loop\<close>

lemma tick_not_playing:
  "status s \<noteq> PLAYING \<Longrightarrow> tick rnd nd s = Some (s, [])"
  by (simp add: tick_def)

lemma tick_wall:
  assumes "status s = PLAYING" and "snake s \<noteq> []"
    and "\<not> inGrid (moveHead nd (hd (snake s)))"
  shows "tick rnd nd s = Some (s\<lparr>status := GAME_OVER, deathReason := Some WALL\<rparr>, [])"
proof -
  obtain h t where "snake s = h # t"
    using assms(2) by (cases "snake s") auto
  with assms(1,3) show ?thesis
    by (auto simp: tick_def inGrid_def Let_def)
qed

lemma tick_self_before_move:
  assumes "status s = PLAYING" and "snake s \<noteq> []"
    and "inGrid (moveHead nd (hd (snake s)))"
    and "moveHead nd (hd (snake s)) \<in> set (snake s)"
    and "moveHead nd (hd (snake s)) \<noteq> last (snake s)"
  shows "tick rnd nd s = Some (s\<lparr>status := GAME_OVER, deathReason := Some SELF\<rparr>, [])"
proof -
  obtain h t where "snake s = h # t"
    using assms(2) by (cases "snake s") auto
  with assms(1,3,4,5) show ?thesis
    unfolding tick_def inGrid_def Let_def isAtCoordinate_iff
    by (simp add: same_cell_iff [symmetric] del: last.simps)
qed

lemma tick_eat:
  assumes "status s = PLAYING" and "snake s \<noteq> []"
    and "inGrid (moveHead nd (hd (snake s)))"
    and "moveHead nd (hd (snake s)) \<notin> set (snake s) \<or>
         moveHead nd (hd (snake s)) = last (snake s)"
    and "moveHead nd (hd (snake s)) = food s"
  shows "tick rnd nd s =
     (case generateFood rnd (food s # snake s) of
        None \<Rightarrow> None
      | Some newFood \<Rightarrow>
          Some (s\<lparr>snake := food s # snake s, food := newFood, score := score s + 1,
                  speed := max MIN_SPEED (speed s - SPEED_DECREMENT),
                  highScore := max (highScore s) (score s + 1), direction := nd\<rparr>,
                if highScore s < score s + 1 then [SetItem ''snake-highscore'' (score s + 1)]
                else []))"
proof -
  obtain h t where "snake s = h # t"
    using assms(2) by (cases "snake s") auto
  with assms(1,3,4,5) show ?thesis
    unfolding tick_def inGrid_def Let_def isAtCoordinate_iff
    by (auto simp: same_cell_iff max_def simp del: last.simps split: option.splits)
qed

lemma tick_move:
  assumes "status s = PLAYING" and "snake s \<noteq> []"
    and "inGrid (moveHead nd (hd (snake s)))"
    and "moveHead nd (hd (snake s)) \<notin> set (snake s) \<or>
         moveHead nd (hd (snake s)) = last (snake s)"
    and "moveHead nd (hd (snake s)) \<noteq> food s"
  shows "tick rnd nd s =
     (if moveHead nd (hd (snake s)) \<in> set (butlast (snake s))
      then Some (s\<lparr>status := GAME_OVER, deathReason := Some SELF\<rparr>, [])
      else Some (s\<lparr>snake := moveHead nd (hd (snake s)) # butlast (snake s),
                    direction := nd\<rparr>, []))"
proof -
  obtain h t where "snake s = h # t"
    using assms(2) by (cases "snake s") auto
  with assms(1,3,4,5) show ?thesis
    unfolding tick_def inGrid_def Let_def isAtCoordinate_iff
    by (auto simp: same_cell_iff list_ex_iff simp del: last.simps)
qed

text \<open>Every way a tick of a game in progress can return.\<close>

lemma tick_cases:
  assumes "status s = PLAYING" and "tick rnd nd s = Some (s', calls)"
  shows "(snake s = [] \<and> s' = s\<lparr>direction := nd\<rparr> \<and> calls = []) \<or>
         (snake s \<noteq> [] \<and> s' = s\<lparr>status := GAME_OVER, deathReason := Some WALL\<rparr> \<and> calls = []) \<or>
         (snake s \<noteq> [] \<and> s' = s\<lparr>status := GAME_OVER, deathReason := Some SELF\<rparr> \<and> calls = []) \<or>
         (snake s \<noteq> [] \<and> inGrid (food s) \<and> moveHead nd (hd (snake s)) = food s \<and>
          (food s \<in> set (snake s) \<longrightarrow> food s = last (snake s)) \<and>
          (\<exists>newFood. newFood \<notin> set (food s # snake s) \<and>
             s' = s\<lparr>snake := food s # snake s, food := newFood, score := score s + 1,
                    speed := max MIN_SPEED (speed s - SPEED_DECREMENT),
                    highScore := max (highScore s) (score s + 1), direction := nd\<rparr> \<and>
             calls = (if highScore s < score s + 1
                      then [SetItem ''snake-highscore'' (score s + 1)] else []))) \<or>
         (snake s \<noteq> [] \<and> inGrid (moveHead nd (hd (snake s))) \<and>
          moveHead nd (hd (snake s)) \<noteq> food s \<and>
          moveHead nd (hd (snake s)) \<notin> set (butlast (snake s)) \<and>
          s' = s\<lparr>snake := moveHead nd (hd (snake s)) # butlast (snake s), direction := nd\<rparr> \<and>
          calls = [])"
proof (cases "snake s = []")
  case True
  with assms show ?thesis
    by (auto simp: tick_def)
next
  case body: False
  let ?nh = "moveHead nd (hd (snake s))"
  show ?thesis
  proof (cases "inGrid ?nh")
    case False
    with assms(1) body
    have "tick rnd nd s = Some (s\<lparr>status := GAME_OVER, deathReason := Some WALL\<rparr>, [])"
      by (rule tick_wall)
    with assms(2) body show ?thesis
      by simp
  next
    case grid: True
    show ?thesis
    proof (cases "?nh \<in> set (snake s) \<and> ?nh \<noteq> last (snake s)")
      case True
      with assms(1) body grid
      have "tick rnd nd s = Some (s\<lparr>status := GAME_OVER, deathReason := Some SELF\<rparr>, [])"
        by (simp add: tick_self_before_move)
      with assms(2) body show ?thesis
        by simp
    next
      case False
      then have free: "?nh \<notin> set (snake s) \<or> ?nh = last (snake s)"
        by blast
      show ?thesis
      proof (cases "?nh = food s")
        case True
        note eat = tick_eat [OF assms(1) body grid free True, of rnd]
        from assms(2) obtain newFood where
          gen: "generateFood rnd (food s # snake s) = Some newFood" and
          res: "s' = s\<lparr>snake := food s # snake s, food := newFood, score := score s + 1,
                    speed := max MIN_SPEED (speed s - SPEED_DECREMENT),
                    highScore := max (highScore s) (score s + 1), direction := nd\<rparr>" and
          cs: "calls = (if highScore s < score s + 1
                      then [SetItem ''snake-highscore'' (score s + 1)] else [])"
          unfolding eat by (auto split: option.splits)
        from gen have "newFood \<notin> set (food s # snake s)"
          unfolding generateFood_def using generateFood_loop_sound by blast
        with res cs body grid free True show ?thesis
          by metis
      next
        case False
        note mv = tick_move [OF assms(1) body grid free False, of rnd]
        from assms(2) body grid False show ?thesis
          unfolding mv by (auto split: if_splits)
      qed
    qed
  qed
qed

text \<open>The high score over one tick, and the writes to the storage.\<close>

lemma tick_highScore:
  assumes "tick rnd nd s = Some (s', calls)"
  shows "highScore s \<le> highScore s' \<and>
         calls = (if highScore s < highScore s'
                  then [SetItem ''snake-highscore'' (highScore s')] else [])"
proof (cases "status s = PLAYING")
  case False
  with assms show ?thesis
    by (simp add: tick_not_playing)
next
  case True
  from tick_cases [OF True assms] show ?thesis
    by (elim disjE conjE exE) (simp_all add: max_def)
qed

lemma tick_new_record:
  assumes "score s \<le> highScore s" and "tick rnd nd s = Some (s', calls)"
    and "highScore s < score s'"
  shows "highScore s' = score s' \<and> calls = [SetItem ''snake-highscore'' (score s')]"
proof (cases "status s = PLAYING")
  case False
  with assms show ?thesis
    by (simp add: tick_not_playing)
next
  case True
  from tick_cases [OF True assms(2)] assms(1,3) show ?thesis
    by (elim disjE conjE exE) (simp_all add: max_def)
qed

text \<open>
  The invariants hold after \<open>startGame\<close> when the loaded high score is not negative,
  and every operation keeps them; so the food of a game in progress is never on the
  tail.
\<close>

lemma tick_wellFormed:
  assumes "wellFormed s" and "tick rnd nd s = Some (s', calls)"
  shows "wellFormed s'"
proof (cases "status s = PLAYING")
  case False
  with assms show ?thesis
    by (simp add: tick_not_playing)
next
  case True
  from assms(1) have tailOn: "last (snake s) \<in> set (snake s)"
    by (simp add: wellFormed_def)
  from tick_cases [OF True assms(2)] show ?thesis
  proof (elim disjE conjE exE)
    fix newFood
    assume "inGrid (food s)"
      "newFood \<notin> set (food s # snake s)"
      "s' = s\<lparr>snake := food s # snake s, food := newFood, score := score s + 1,
                    speed := max MIN_SPEED (speed s - SPEED_DECREMENT),
                    highScore := max (highScore s) (score s + 1), direction := nd\<rparr>"
    with assms(1) show ?thesis
      by (simp add: wellFormed_def)
  next
    assume "inGrid (moveHead nd (hd (snake s)))" "moveHead nd (hd (snake s)) \<noteq> food s"
      "moveHead nd (hd (snake s)) \<notin> set (butlast (snake s))"
      "s' = s\<lparr>snake := moveHead nd (hd (snake s)) # butlast (snake s), direction := nd\<rparr>"
    with assms(1) show ?thesis
      by (auto simp: wellFormed_def distinct_butlast list_all_iff dest: in_set_butlastD)
  qed (use assms(1) in \<open>simp_all add: wellFormed_def\<close>)
qed

lemma startGame_wellFormed:
  assumes "0 \<le> highScore s" and "startGame rnd s = Some (s', d)"
  shows "wellFormed s' \<and> status s' = PLAYING \<and> d = UP \<and> highScore s' = highScore s"
proof -
  from assms(2) obtain newFood where
    gen: "generateFood rnd INITIAL_SNAKE = Some newFood" and
    res: "s' = INITIAL_STATE\<lparr>highScore := highScore s, status := PLAYING, food := newFood\<rparr>"
      and "d = UP"
    by (auto simp: startGame_def split: option.splits)
  from gen have "newFood \<notin> set INITIAL_SNAKE"
    unfolding generateFood_def using generateFood_loop_sound by blast
  with res assms(1) \<open>d = UP\<close> show ?thesis
    by (simp add: wellFormed_def INITIAL_STATE_def INITIAL_SNAKE_def inGrid_def GRID_SIZE_def)
qed

lemma pauseGame_wellFormed:
  "wellFormed s \<Longrightarrow> wellFormed (pauseGame g s)"
  by (simp add: wellFormed_def pauseGame_def)

lemma handleDirectionChange_wellFormed:
  "wellFormed s \<Longrightarrow> wellFormed (fst (handleDirectionChange r s p))"
  by (simp add: handleDirectionChange_def)

lemma wellFormed_food_off_tail:
  "wellFormed s \<Longrightarrow> food s \<noteq> last (snake s)"
  by (auto simp: wellFormed_def)

section \<open>The snake that fills the grid\<close>

lemma set_gridRow: "set (gridRow b) = (\<lambda>a. cell (int a) (int b)) ` {0..<20}"
  by (simp add: gridRow_def)

lemma set_fullBody:
  "set fullBody =
     (\<lambda>a. cell (int a) 0) ` {1..<20} \<union> (\<Union>b\<in>{1..<20}. (\<lambda>a. cell (int a) (int b)) ` {0..<20})"
  by (simp add: fullBody_def set_gridRow)

lemma cell_inject: "(cell a b = cell c d) = (a = c \<and> b = d)"
  by (simp add: cell_def)

lemma origin_off_fullBody: "cell 0 0 \<notin> set fullBody"
  by (auto simp: set_fullBody cell_inject)

lemma fullBody_covers:
  assumes "inGrid c"
  shows "c \<in> set (cell 0 0 # fullBody)"
proof -
  obtain a b where c: "c = cell (int a) (int b)" and "a < 20" and "b < 20"
  proof
    show "c = cell (int (nat (x c))) (int (nat (y c)))"
      using assms by (simp add: cell_def inGrid_def)
    show "nat (x c) < 20" "nat (y c) < 20"
      using assms unfolding inGrid_def GRID_SIZE_def by linarith+
  qed
  show ?thesis
  proof (cases "b = 0")
    case True
    show ?thesis
    proof (cases "a = 0")
      case True
      with \<open>b = 0\<close> c show ?thesis by simp
    next
      case False
      with \<open>a < 20\<close> have "a \<in> {1..<20}" by simp
      with \<open>b = 0\<close> c show ?thesis
        by (simp add: set_fullBody)
    qed
  next
    case False
    with \<open>b < 20\<close> \<open>a < 20\<close> have "b \<in> {1..<20}" "a \<in> {0..<20}" by simp_all
    with c show ?thesis
      unfolding set_fullBody list.set by blast
  qed
qed

lemma hd_fullBody: "hd fullBody = cell 1 0"
proof -
  have "[1..<20] = 1 # [2..<20]"
    by (simp add: upt_conv_Cons)
  then show ?thesis
    by (simp add: fullBody_def)
qed

lemma fullBody_nonempty: "fullBody \<noteq> []"
  by (simp add: fullBody_def)

lemma length_fullBody: "length fullBody = 399"
  by (simp add: fullBody_def gridRow_def length_concat comp_def sum_list_triv if_distrib cong: if_cong)

text \<open>On a body that covers the grid no draw within the grid is ever accepted.\<close>

lemma generateFood_full_grid:
  assumes "\<And>k. 0 \<le> rnd k \<and> rnd k < GRID_SIZE" and "\<And>c. inGrid c \<Longrightarrow> c \<in> set body"
  shows "generateFood rnd body = None"
  unfolding generateFood_def
proof (rule generateFood_loop_diverges)
  fix j
  have "inGrid (drawn rnd j)"
    using assms(1) by (simp add: inGrid_def drawn_def)
  then show "drawn rnd j \<in> set body"
    by (rule assms(2))
qed

lemma fairDraws_range: "0 \<le> fairDraws k \<and> fairDraws k < GRID_SIZE"
  by (simp add: fairDraws_def GRID_SIZE_def)

lemma tick_fullState:
  assumes "\<And>k. 0 \<le> rnd k \<and> rnd k < GRID_SIZE"
  shows "tick rnd LEFT fullState = None"
proof -
  have nh: "moveHead LEFT (hd (snake fullState)) = food fullState"
    by (simp add: fullState_def hd_fullBody moveHead_def cell_def)
  have "tick rnd LEFT fullState =
     (case generateFood rnd (food fullState # snake fullState) of
        None \<Rightarrow> None
      | Some newFood \<Rightarrow>
          Some (fullState\<lparr>snake := food fullState # snake fullState, food := newFood, score := score fullState + 1,
                  speed := max MIN_SPEED (speed fullState - SPEED_DECREMENT),
                  highScore := max (highScore fullState) (score fullState + 1), direction := LEFT\<rparr>,
                if highScore fullState < score fullState + 1 then [SetItem ''snake-highscore'' (score fullState + 1)]
                else []))"
  proof (rule tick_eat)
    show "status fullState = PLAYING" by (simp add: fullState_def)
    show "snake fullState \<noteq> []" by (simp add: fullState_def fullBody_nonempty)
    show "inGrid (moveHead LEFT (hd (snake fullState)))"
      unfolding nh by (simp add: fullState_def inGrid_def cell_def GRID_SIZE_def)
    show "moveHead LEFT (hd (snake fullState)) \<notin> set (snake fullState) \<or>
         moveHead LEFT (hd (snake fullState)) = last (snake fullState)"
      unfolding nh by (simp add: fullState_def origin_off_fullBody)
    show "moveHead LEFT (hd (snake fullState)) = food fullState" by (rule nh)
  qed
  moreover have "generateFood rnd (food fullState # snake fullState) = None"
    using assms fullBody_covers by (intro generateFood_full_grid) (simp_all add: fullState_def)
  ultimately show ?thesis
    by simp
qed

lemma cell_in_grid:
  assumes "a < 20" and "b < 20"
  shows "cell (int a) (int b) \<in> (\<lambda>(a, b). cell (int a) (int b)) ` ({0..<20} \<times> {0..<20})"
  using assms by (intro image_eqI [of _ _ "(a, b)"]) simp_all

lemma set_fullBody_grid:
  "set fullBody =
     (\<lambda>(a, b). cell (int a) (int b)) ` ({0..<20} \<times> {0..<20}) - {cell 0 0}"
proof (intro set_eqI iffI)
  fix c
  assume "c \<in> set fullBody"
  then have "c \<in> (\<lambda>(a, b). cell (int a) (int b)) ` ({0..<20} \<times> {0..<20})"
    unfolding set_fullBody using cell_in_grid [of _ 0] cell_in_grid by auto
  moreover from \<open>c \<in> set fullBody\<close> have "c \<noteq> cell 0 0"
    using origin_off_fullBody by auto
  ultimately show "c \<in> (\<lambda>(a, b). cell (int a) (int b)) ` ({0..<20} \<times> {0..<20}) - {cell 0 0}"
    by simp
next
  fix c
  assume c: "c \<in> (\<lambda>(a, b). cell (int a) (int b)) ` ({0..<20} \<times> {0..<20}) - {cell 0 0}"
  then have "inGrid c"
    by (auto simp: inGrid_def cell_def GRID_SIZE_def)
  then have "c \<in> set (cell 0 0 # fullBody)"
    by (rule fullBody_covers)
  with c show "c \<in> set fullBody"
    by simp
qed

lemma distinct_fullBody: "distinct fullBody"
proof (rule card_distinct)
  have inj: "inj_on (\<lambda>(a, b). cell (int a) (int b)) ({0..<20} \<times> {0..<20})"
    by (auto simp: inj_on_def cell_inject)
  have "card ((\<lambda>(a, b). cell (int a) (int b)) ` ({0..<20::nat} \<times> {0..<20::nat})) = 400"
    by (simp add: card_image [OF inj])
  moreover have "cell 0 0 \<in> (\<lambda>(a, b). cell (int a) (int b)) ` ({0..<20} \<times> {0..<20})"
    using cell_in_grid [of 0 0] by simp
  ultimately have "card (set fullBody) = 399"
    unfolding set_fullBody_grid by simp
  then show "card (set fullBody) = length fullBody"
    by (simp add: length_fullBody)
qed

text \<open>The state keeps every invariant of the data model.\<close>

lemma wellFormed_fullState: "wellFormed fullState"
proof -
  have "list_all inGrid fullBody"
    unfolding list_all_iff set_fullBody_grid
    by (auto simp: inGrid_def cell_def GRID_SIZE_def)
  then show ?thesis
    by (simp add: wellFormed_def fullState_def fullBody_nonempty distinct_fullBody
        origin_off_fullBody)
qed

section \<open>The claims\<close>

lemmas example_defs =
  playingState_def cell_def INITIAL_SPEED_def INITIAL_STATE_def INITIAL_SNAKE_def
  inGrid_def moveHead_def GRID_SIZE_def MIN_SPEED_def SPEED_DECREMENT_def

text \<open>
  C8. In every state whose status is not \<open>PLAYING\<close> (\<open>IDLE\<close>, \<open>PAUSED\<close> or
  \<open>GAME_OVER\<close>) the game loop returns the state it received, whatever the pending
  direction and the random source are, and writes nothing to the storage.
\<close>

theorem tick_ignored_unless_playing:
  assumes "status s \<noteq> PLAYING"
  shows "tick rnd nd s = Some (s, [])"
  using assms by (rule tick_not_playing)

theorem tick_ignored_unless_playing_witness:
  "status INITIAL_STATE = IDLE \<and>
   tick exampleDraws LEFT INITIAL_STATE = Some (INITIAL_STATE, []) \<and>
   status (INITIAL_STATE\<lparr>status := PAUSED\<rparr>) = PAUSED \<and>
   tick exampleDraws LEFT (INITIAL_STATE\<lparr>status := PAUSED\<rparr>) =
     Some (INITIAL_STATE\<lparr>status := PAUSED\<rparr>, []) \<and>
   tick exampleDraws LEFT (INITIAL_STATE\<lparr>status := GAME_OVER\<rparr>) =
     Some (INITIAL_STATE\<lparr>status := GAME_OVER\<rparr>, [])"
  using tick_ignored_unless_playing [of INITIAL_STATE exampleDraws LEFT]
    tick_ignored_unless_playing [of "INITIAL_STATE\<lparr>status := PAUSED\<rparr>" exampleDraws LEFT]
    tick_ignored_unless_playing [of "INITIAL_STATE\<lparr>status := GAME_OVER\<rparr>" exampleDraws LEFT]
  by (simp add: INITIAL_STATE_def)

text \<open>
  C3. In every \<open>PLAYING\<close> state with a head, when the new head cell is outside
  \<open>[0, GRID_SIZE)\<close> on either axis, the game loop returns the state with status
  \<open>GAME_OVER\<close> and death cause \<open>WALL\<close>; snake, food, score, speed, high score and
  direction are those of the state before, and nothing is written to the storage.
\<close>

theorem wall_death_frame:
  assumes "status s = PLAYING" and "snake s \<noteq> []"
    and "x (moveHead nd (hd (snake s))) < 0 \<or> GRID_SIZE \<le> x (moveHead nd (hd (snake s))) \<or>
         y (moveHead nd (hd (snake s))) < 0 \<or> GRID_SIZE \<le> y (moveHead nd (hd (snake s)))"
  shows "\<exists>s'. tick rnd nd s = Some (s', []) \<and>
           status s' = GAME_OVER \<and> deathReason s' = Some WALL \<and>
           snake s' = snake s \<and> food s' = food s \<and> score s' = score s \<and>
           speed s' = speed s \<and> highScore s' = highScore s \<and> direction s' = direction s \<and>
           s' = s\<lparr>status := GAME_OVER, deathReason := Some WALL\<rparr>"
proof -
  from assms(3) have "\<not> inGrid (moveHead nd (hd (snake s)))"
    by (auto simp: inGrid_def)
  with assms(1,2)
  have "tick rnd nd s = Some (s\<lparr>status := GAME_OVER, deathReason := Some WALL\<rparr>, [])"
    by (rule tick_wall)
  then show ?thesis
    by simp
qed

text \<open>Scenario C of the specification: head at \<open>(0, 5)\<close>, moving \<open>LEFT\<close>.\<close>

theorem wall_death_frame_witness:
  "status (playingState [cell 0 5, cell 1 5, cell 2 5] (cell 7 7)) = PLAYING \<and>
   moveHead LEFT (hd (snake (playingState [cell 0 5, cell 1 5, cell 2 5] (cell 7 7)))) =
     cell (- 1) 5 \<and>
   tick exampleDraws LEFT (playingState [cell 0 5, cell 1 5, cell 2 5] (cell 7 7)) =
     Some ((playingState [cell 0 5, cell 1 5, cell 2 5] (cell 7 7))
             \<lparr>status := GAME_OVER, deathReason := Some WALL\<rparr>, [])"
  using wall_death_frame
    [of "playingState [cell 0 5, cell 1 5, cell 2 5] (cell 7 7)" LEFT exampleDraws]
  by (auto simp: example_defs)

text \<open>
  C9. Scenario A on the 20 by 20 grid: from a \<open>PLAYING\<close> state with snake
  \<open>[(10,10), (10,11), (10,12)]\<close> and heading \<open>UP\<close>, with the direction buffer holding
  that same heading (the component's \<open>nextDirection\<close> always holds a value; unchanged
  since the last tick it is the current heading) and food anywhere but \<open>(10,9)\<close>, one
  tick returns the same state with snake \<open>[(10,9), (10,10), (10,11)]\<close>: score and tick
  interval, like every other field, are unchanged.
\<close>

theorem scenario_A_step:
  assumes "status s = PLAYING"
    and "snake s = [cell 10 10, cell 10 11, cell 10 12]"
    and "direction s = UP"
    and "food s \<noteq> cell 10 9"
  shows "\<exists>s'. tick rnd UP s = Some (s', []) \<and>
           snake s' = [cell 10 9, cell 10 10, cell 10 11] \<and>
           score s' = score s \<and> speed s' = speed s \<and> status s' = PLAYING \<and>
           s' = s\<lparr>snake := [cell 10 9, cell 10 10, cell 10 11]\<rparr>"
proof -
  have nh: "moveHead UP (hd (snake s)) = cell 10 9"
    by (simp add: assms(2) moveHead_def cell_def)
  have "tick rnd UP s =
      (if moveHead UP (hd (snake s)) \<in> set (butlast (snake s))
       then Some (s\<lparr>status := GAME_OVER, deathReason := Some SELF\<rparr>, [])
       else Some (s\<lparr>snake := moveHead UP (hd (snake s)) # butlast (snake s),
                     direction := UP\<rparr>, []))"
  proof (rule tick_move)
    show "status s = PLAYING" by (rule assms(1))
    show "snake s \<noteq> []" by (simp add: assms(2))
    show "inGrid (moveHead UP (hd (snake s)))"
      by (simp add: nh inGrid_def cell_def GRID_SIZE_def)
    show "moveHead UP (hd (snake s)) \<notin> set (snake s) \<or>
          moveHead UP (hd (snake s)) = last (snake s)"
      unfolding nh by (simp add: assms(2) cell_def)
    show "moveHead UP (hd (snake s)) \<noteq> food s"
      using assms(4) by (simp add: nh)
  qed
  then have "tick rnd UP s = Some (s\<lparr>snake := [cell 10 9, cell 10 10, cell 10 11], direction := UP\<rparr>, [])"
    unfolding nh by (simp add: assms(2) cell_def)
  moreover have "s\<lparr>snake := [cell 10 9, cell 10 10, cell 10 11], direction := UP\<rparr> =
      s\<lparr>snake := [cell 10 9, cell 10 10, cell 10 11]\<rparr>"
    using assms(3) by simp
  ultimately show ?thesis
    using assms(1) by simp
qed

theorem scenario_A_step_witness:
  "status (playingState INITIAL_SNAKE (cell 5 5)) = PLAYING \<and>
   snake (playingState INITIAL_SNAKE (cell 5 5)) = [cell 10 10, cell 10 11, cell 10 12] \<and>
   direction (playingState INITIAL_SNAKE (cell 5 5)) = UP \<and>
   food (playingState INITIAL_SNAKE (cell 5 5)) \<noteq> cell 10 9 \<and>
   tick exampleDraws UP (playingState INITIAL_SNAKE (cell 5 5)) =
     Some (playingState [cell 10 9, cell 10 10, cell 10 11] (cell 5 5), [])"
  using scenario_A_step [of "playingState INITIAL_SNAKE (cell 5 5)" exampleDraws]
  by (auto simp: example_defs)

text \<open>
  C5. For every authoritative heading \<open>direction s\<close>, every request \<open>r\<close> and every
  pending heading \<open>p\<close>: a request that is the exact opposite of the authoritative
  heading leaves the pending slot as it was, and any other request overwrites the slot
  with the request. Neither case looks at \<open>p\<close>: the test is against the authoritative
  heading only. Of two accepted requests between ticks the slot holds the second. The
  game state is returned unchanged, and the four cases of the source's test are exactly
  the specification's opposite.
\<close>

theorem direction_buffer:
  "(r = oppositeOf (direction s) \<longrightarrow> handleDirectionChange r s p = (s, p)) \<and>
   (r \<noteq> oppositeOf (direction s) \<longrightarrow> handleDirectionChange r s p = (s, r)) \<and>
   (r1 \<noteq> oppositeOf (direction s) \<and> r2 \<noteq> oppositeOf (direction s) \<longrightarrow>
      handleDirectionChange r2 (fst (handleDirectionChange r1 s p))
        (snd (handleDirectionChange r1 s p)) = (s, r2)) \<and>
   isOpposite r (direction s) = (r = oppositeOf (direction s))"
  by (cases r; cases r1; cases r2; cases "direction s")
     (simp_all add: handleDirectionChange_def isOpposite_def)

theorem direction_buffer_witness:
  "handleDirectionChange DOWN (playingState INITIAL_SNAKE (cell 5 5)) LEFT =
     (playingState INITIAL_SNAKE (cell 5 5), LEFT) \<and>
   handleDirectionChange RIGHT (playingState INITIAL_SNAKE (cell 5 5)) LEFT =
     (playingState INITIAL_SNAKE (cell 5 5), RIGHT) \<and>
   handleDirectionChange RIGHT
     (fst (handleDirectionChange LEFT (playingState INITIAL_SNAKE (cell 5 5)) UP))
     (snd (handleDirectionChange LEFT (playingState INITIAL_SNAKE (cell 5 5)) UP)) =
     (playingState INITIAL_SNAKE (cell 5 5), RIGHT)"
  using direction_buffer [of DOWN "playingState INITIAL_SNAKE (cell 5 5)" LEFT LEFT RIGHT]
    direction_buffer [of RIGHT "playingState INITIAL_SNAKE (cell 5 5)" LEFT LEFT RIGHT]
    direction_buffer [of RIGHT "playingState INITIAL_SNAKE (cell 5 5)" UP LEFT RIGHT]
  by (simp add: playingState_def)

text \<open>
  C10. From every \<open>PLAYING\<close> state, a tick that ends in \<open>GAME_OVER\<close> with death cause
  \<open>SELF\<close> returns the state it received with only these two fields changed: snake,
  food, score, speed, high score and direction are those before the tick, so the pending
  heading the tick consumed is not committed to \<open>direction\<close>; nothing is written to the
  storage.
\<close>

theorem self_death_frame:
  assumes "status s = PLAYING"
    and "tick rnd nd s = Some (s', calls)"
    and "status s' = GAME_OVER" and "deathReason s' = Some SELF"
  shows "s' = s\<lparr>status := GAME_OVER, deathReason := Some SELF\<rparr> \<and> calls = [] \<and>
         snake s' = snake s \<and> food s' = food s \<and> score s' = score s \<and>
         speed s' = speed s \<and> highScore s' = highScore s \<and> direction s' = direction s"
proof -
  have "s' = s\<lparr>status := GAME_OVER, deathReason := Some SELF\<rparr> \<and> calls = []"
  proof (cases "snake s = []")
    case True
    with assms(1,2) have "s' = s\<lparr>direction := nd\<rparr>"
      by (auto simp: tick_def)
    with assms(1,3) show ?thesis
      by simp
  next
    case body: False
    let ?nh = "moveHead nd (hd (snake s))"
    show ?thesis
    proof (cases "inGrid ?nh")
      case False
      with assms(1) body
      have "tick rnd nd s = Some (s\<lparr>status := GAME_OVER, deathReason := Some WALL\<rparr>, [])"
        by (rule tick_wall)
      with assms(2,4) show ?thesis
        by auto
    next
      case grid: True
      show ?thesis
      proof (cases "?nh \<in> set (snake s) \<and> ?nh \<noteq> last (snake s)")
        case True
        with assms(1) body grid
        have "tick rnd nd s = Some (s\<lparr>status := GAME_OVER, deathReason := Some SELF\<rparr>, [])"
          by (simp add: tick_self_before_move)
        with assms(2) show ?thesis
          by simp
      next
        case False
        then have free: "?nh \<notin> set (snake s) \<or> ?nh = last (snake s)"
          by blast
        show ?thesis
        proof (cases "?nh = food s")
          case True
          note eat = tick_eat [OF assms(1) body grid free True, of rnd]
          from assms(2) assms(1) assms(3) show ?thesis
            unfolding eat by (auto split: option.splits)
        next
          case False
          note mv = tick_move [OF assms(1) body grid free False, of rnd]
          from assms(2) assms(1) assms(3) show ?thesis
            unfolding mv by (auto split: if_splits)
        qed
      qed
    qed
  qed
  then show ?thesis
    by simp
qed

theorem self_death_frame_witness:
  "status (playingState hookBody (cell 1 1)) = PLAYING \<and>
   tick exampleDraws RIGHT (playingState hookBody (cell 1 1)) =
     Some ((playingState hookBody (cell 1 1))\<lparr>status := GAME_OVER, deathReason := Some SELF\<rparr>, []) \<and>
   direction ((playingState hookBody (cell 1 1))\<lparr>status := GAME_OVER, deathReason := Some SELF\<rparr>) = UP"
  using self_death_frame [of "playingState hookBody (cell 1 1)" exampleDraws RIGHT
      "(playingState hookBody (cell 1 1))\<lparr>status := GAME_OVER, deathReason := Some SELF\<rparr>" "[]"]
  by (simp add: example_defs hookBody_def tick_def isAtCoordinate_def)

text \<open>
  C4. In every \<open>PLAYING\<close> state whose new head cell is a cell of the grid and is not the
  food (the snake does not eat), when the new head equals a body coordinate other than
  the current tail coordinate, the tick returns the state with status \<open>GAME_OVER\<close> and
  death cause \<open>SELF\<close>. Both readings of "other than the exact current tail" are
  covered: the new head is on the body and differs from the tail coordinate (the check
  before the move), or it equals a segment other than the last one (the check after the
  tail is removed).
\<close>

theorem body_hit_is_self_death:
  assumes "status s = PLAYING" and "snake s \<noteq> []"
    and "inGrid (moveHead nd (hd (snake s)))"
    and "moveHead nd (hd (snake s)) \<noteq> food s"
    and "(moveHead nd (hd (snake s)) \<in> set (snake s) \<and>
          moveHead nd (hd (snake s)) \<noteq> last (snake s)) \<or>
         moveHead nd (hd (snake s)) \<in> set (butlast (snake s))"
  shows "tick rnd nd s = Some (s\<lparr>status := GAME_OVER, deathReason := Some SELF\<rparr>, [])"
proof (cases "moveHead nd (hd (snake s)) = last (snake s)")
  case True
  with assms(5) have hit: "moveHead nd (hd (snake s)) \<in> set (butlast (snake s))"
    by blast
  from True have "moveHead nd (hd (snake s)) \<notin> set (snake s) \<or>
             moveHead nd (hd (snake s)) = last (snake s)"
    by simp
  from tick_move [OF assms(1,2,3) this assms(4), of rnd] hit show ?thesis
    by simp
next
  case False
  moreover from assms(5) have "moveHead nd (hd (snake s)) \<in> set (snake s)"
    by (auto dest: in_set_butlastD)
  ultimately show ?thesis
    using assms(1,2,3) by (simp add: tick_self_before_move)
qed

theorem body_hit_is_self_death_witness:
  "status (playingState hookBody (cell 1 1)) = PLAYING \<and>
   inGrid (moveHead RIGHT (hd (snake (playingState hookBody (cell 1 1))))) \<and>
   moveHead RIGHT (hd (snake (playingState hookBody (cell 1 1)))) = cell 6 5 \<and>
   cell 6 5 \<noteq> food (playingState hookBody (cell 1 1)) \<and>
   cell 6 5 \<in> set (butlast (snake (playingState hookBody (cell 1 1)))) \<and>
   cell 6 5 \<noteq> last (snake (playingState hookBody (cell 1 1))) \<and>
   tick exampleDraws RIGHT (playingState hookBody (cell 1 1)) =
     Some ((playingState hookBody (cell 1 1))\<lparr>status := GAME_OVER, deathReason := Some SELF\<rparr>, [])"
  using body_hit_is_self_death [of "playingState hookBody (cell 1 1)" RIGHT exampleDraws]
  by (simp add: example_defs hookBody_def)

text \<open>
  Scenario D of the specification names the snake
  \<open>[(5,5), (5,6), (5,7), (4,7), (4,6)]\<close> and a new head on \<open>(4,6)\<close>. That cell is the
  last element of the snake, and no heading moves the head \<open>(5,5)\<close> onto it.
\<close>

lemma scenario_D_cell:
  "last [cell 5 5, cell 5 6, cell 5 7, cell 4 7, cell 4 6] = cell 4 6 \<and>
   moveHead nd (cell 5 5) \<noteq> cell 4 6"
  by (cases nd) (simp_all add: moveHead_def cell_def)

text \<open>
  C2. In every \<open>PLAYING\<close> state of the data model (the tail is a cell of the grid and no
  other segment lies on it) whose new head cell equals the current tail coordinate and
  not the food coordinate, the tick is survived: the status stays \<open>PLAYING\<close>, the body
  is the new head followed by the old body without its tail, so its length is the one
  before, and the heading moved in becomes the direction.
\<close>

theorem tail_chase_survives:
  assumes "status s = PLAYING" and "snake s \<noteq> []"
    and "moveHead nd (hd (snake s)) = last (snake s)"
    and "moveHead nd (hd (snake s)) \<noteq> food s"
    and "inGrid (last (snake s))"
    and "last (snake s) \<notin> set (butlast (snake s))"
  shows "\<exists>s'. tick rnd nd s = Some (s', []) \<and> status s' = PLAYING \<and>
           length (snake s') = length (snake s) \<and>
           s' = s\<lparr>snake := last (snake s) # butlast (snake s), direction := nd\<rparr>"
proof -
  have "moveHead nd (hd (snake s)) \<notin> set (snake s) \<or>
        moveHead nd (hd (snake s)) = last (snake s)"
    using assms(3) by simp
  from tick_move [OF assms(1,2) _ this assms(4), of rnd] assms(1,2,3,5,6)
  show ?thesis
    by simp
qed

theorem tail_chase_survives_witness:
  "status (playingState ringBody (cell 1 1)) = PLAYING \<and>
   moveHead RIGHT (hd (snake (playingState ringBody (cell 1 1)))) = cell 6 5 \<and>
   last (snake (playingState ringBody (cell 1 1))) = cell 6 5 \<and>
   cell 6 5 \<noteq> food (playingState ringBody (cell 1 1)) \<and>
   inGrid (cell 6 5) \<and>
   cell 6 5 \<notin> set (butlast (snake (playingState ringBody (cell 1 1)))) \<and>
   tick exampleDraws RIGHT (playingState ringBody (cell 1 1)) =
     Some ((playingState [cell 6 5, cell 5 5, cell 5 6, cell 6 6] (cell 1 1))
             \<lparr>direction := RIGHT\<rparr>, [])"
  using tail_chase_survives [of "playingState ringBody (cell 1 1)" RIGHT exampleDraws]
  by (simp add: example_defs ringBody_def)




text \<open>
  The state of this example has its food on the body, so it breaks the invariants; and
  what the example shows holds on every state of that kind.
\<close>

lemma ring_with_food_on_tail_not_wellFormed:
  "\<not> wellFormed (playingState ringBody (cell 6 5))"
  by (simp add: wellFormed_def playingState_def ringBody_def)

lemma tick_eat_onto_tail:
  assumes "status s = PLAYING" and "snake s \<noteq> []"
    and "moveHead nd (hd (snake s)) = last (snake s)"
    and "moveHead nd (hd (snake s)) = food s"
    and "inGrid (last (snake s))"
    and "drawn rnd j \<notin> set (last (snake s) # snake s)"
  shows "\<exists>s' calls. tick rnd nd s = Some (s', calls) \<and> status s' = PLAYING \<and>
           deathReason s' = deathReason s \<and> snake s' = last (snake s) # snake s \<and>
           score s' = score s + 1"
proof -
  have free: "moveHead nd (hd (snake s)) \<notin> set (snake s) \<or>
        moveHead nd (hd (snake s)) = last (snake s)"
    using assms(3) by simp
  have tail: "food s = last (snake s)"
    using assms(3,4) by simp
  from assms(6) obtain c where "generateFood rnd (food s # snake s) = Some c"
    using generateFood_returns [of rnd j "food s # snake s"] by (auto simp: tail)
  with tick_eat [OF assms(1,2) _ free assms(4), of rnd] assms(1,3,5) show ?thesis
    by (simp add: tail)
qed

text \<open>
  C7. The high score. In a state whose score is not above its high score (an invariant
  of every game, \<open>tick_wellFormed\<close> and \<open>startGame_wellFormed\<close>), a tick after which
  the score exceeds the prior high score returns the high score equal to that score and
  makes exactly one call to the storage, writing it. On every tick the high score does
  not decrease, and the storage is written once when it rises and not at all otherwise.
  Starting a game, pausing or resuming, and a direction change leave the high score as
  it is.
\<close>

theorem high_score_ledger:
  "(score s \<le> highScore s \<and> tick rnd nd s = Some (s', calls) \<and> highScore s < score s' \<longrightarrow>
      highScore s' = score s' \<and> calls = [SetItem ''snake-highscore'' (score s')]) \<and>
   (tick rnd nd s = Some (s', calls) \<longrightarrow>
      highScore s \<le> highScore s' \<and>
      calls = (if highScore s < highScore s'
               then [SetItem ''snake-highscore'' (highScore s')] else [])) \<and>
   (startGame rnd s = Some (s2, d2) \<longrightarrow> highScore s \<le> highScore s2) \<and>
   highScore s \<le> highScore (pauseGame g s) \<and>
   highScore s \<le> highScore (fst (handleDirectionChange r s p))"
proof (intro conjI impI)
  assume "score s \<le> highScore s \<and> tick rnd nd s = Some (s', calls) \<and> highScore s < score s'"
  then show "highScore s' = score s'" "calls = [SetItem ''snake-highscore'' (score s')]"
    using tick_new_record by blast+
next
  assume "tick rnd nd s = Some (s', calls)"
  then show "highScore s \<le> highScore s'"
    "calls = (if highScore s < highScore s'
               then [SetItem ''snake-highscore'' (highScore s')] else [])"
    using tick_highScore by blast+
next
  assume "startGame rnd s = Some (s2, d2)"
  then show "highScore s \<le> highScore s2"
    by (auto simp: startGame_def split: option.splits)
next
  show "highScore s \<le> highScore (pauseGame g s)"
    by (simp add: pauseGame_def)
  show "highScore s \<le> highScore (fst (handleDirectionChange r s p))"
    by (simp add: handleDirectionChange_def)
qed

theorem high_score_ledger_witness:
  "score (playingState lineBody (cell 5 4)) \<le> highScore (playingState lineBody (cell 5 4)) \<and>
   tick exampleDraws UP (playingState lineBody (cell 5 4)) =
     Some (grownState, [SetItem ''snake-highscore'' 1]) \<and>
   highScore (playingState lineBody (cell 5 4)) < score grownState \<and>
   highScore grownState = score grownState \<and>
   highScore (playingState lineBody (cell 5 4)) \<le> highScore grownState \<and>
   startGame exampleDraws grownState =
     Some (INITIAL_STATE\<lparr>highScore := 1, status := PLAYING, food := cell 5 6\<rparr>, UP) \<and>
   highScore grownState \<le> highScore (pauseGame grownState grownState) \<and>
   highScore grownState \<le> highScore (fst (handleDirectionChange LEFT grownState UP))"
  using high_score_ledger [of "playingState lineBody (cell 5 4)" exampleDraws UP grownState
      "[SetItem ''snake-highscore'' 1]" _ _ grownState LEFT UP]
    high_score_ledger [of grownState exampleDraws UP _ _
      "INITIAL_STATE\<lparr>highScore := 1, status := PLAYING, food := cell 5 6\<rparr>" UP grownState LEFT UP]
  by (simp add: example_defs lineBody_def grownState_def tick_def isAtCoordinate_def
      generateFood_def generateFood_loop_unfold drawn_def exampleDraws_def Let_def
      startGame_def pauseGame_def handleDirectionChange_def isOpposite_def)

text \<open>
  C6, as amended. In every \<open>PLAYING\<close> state whose new head cell is on the grid, equals
  the food coordinate and is on no segment of the body, if some round of the random
  source draws a cell off the grown body, then the tick returns a \<open>PLAYING\<close> state in
  which the score is one more, the body is the old one with the new head prepended (one
  segment longer), the new food is on no segment of that grown body, and the tick
  interval is the old one minus \<open>SPEED_DECREMENT\<close>, or \<open>MIN_SPEED\<close> when that would be
  lower.
\<close>

theorem eating_tick:
  assumes "status s = PLAYING" and "snake s \<noteq> []"
    and "moveHead nd (hd (snake s)) = food s"
    and "inGrid (moveHead nd (hd (snake s)))"
    and "\<not> isAtCoordinate (moveHead nd (hd (snake s))) (snake s)"
    and "\<not> isAtCoordinate (drawn rnd j) (moveHead nd (hd (snake s)) # snake s)"
  shows "\<exists>s' calls. tick rnd nd s = Some (s', calls) \<and> status s' = PLAYING \<and>
           score s' = score s + 1 \<and>
           snake s' = moveHead nd (hd (snake s)) # snake s \<and>
           length (snake s') = length (snake s) + 1 \<and>
           \<not> isAtCoordinate (food s') (snake s') \<and>
           speed s' = max MIN_SPEED (speed s - SPEED_DECREMENT) \<and>
           MIN_SPEED \<le> speed s' \<and>
           (if MIN_SPEED \<le> speed s - SPEED_DECREMENT
            then speed s' = speed s - SPEED_DECREMENT else speed s' = MIN_SPEED)"
proof -
  have free: "moveHead nd (hd (snake s)) \<notin> set (snake s) \<or>
        moveHead nd (hd (snake s)) = last (snake s)"
    using assms(5) by (simp add: isAtCoordinate_iff)
  from assms(6) have "drawn rnd j \<notin> set (food s # snake s)"
    by (simp add: isAtCoordinate_iff assms(3))
  then obtain c where gen: "generateFood rnd (food s # snake s) = Some c"
    and off: "c \<notin> set (food s # snake s)"
    using generateFood_returns by blast
  from tick_eat [OF assms(1,2,4) free assms(3), of rnd] gen
  have "tick rnd nd s =
      Some (s\<lparr>snake := food s # snake s, food := c, score := score s + 1,
               speed := max MIN_SPEED (speed s - SPEED_DECREMENT),
               highScore := max (highScore s) (score s + 1), direction := nd\<rparr>,
            if highScore s < score s + 1 then [SetItem ''snake-highscore'' (score s + 1)]
            else [])"
    by simp
  with off assms(1,3) show ?thesis
    by (simp add: isAtCoordinate_iff max_def)
qed

theorem eating_tick_witness:
  "status (playingState lineBody (cell 5 4)) = PLAYING \<and>
   moveHead UP (hd (snake (playingState lineBody (cell 5 4)))) =
     food (playingState lineBody (cell 5 4)) \<and>
   inGrid (cell 5 4) \<and>
   \<not> isAtCoordinate (cell 5 4) (snake (playingState lineBody (cell 5 4))) \<and>
   isAtCoordinate (drawn exampleDraws 0) (cell 5 4 # lineBody) \<and>
   \<not> isAtCoordinate (drawn exampleDraws 1) (cell 5 4 # lineBody) \<and>
   tick exampleDraws UP (playingState lineBody (cell 5 4)) =
     Some (grownState, [SetItem ''snake-highscore'' 1]) \<and>
   score grownState = 1 \<and> length (snake grownState) = 4 \<and> food grownState = cell 7 8 \<and>
   speed grownState = 148 \<and>
   map_option (speed \<circ> fst)
     (tick exampleDraws UP ((playingState lineBody (cell 5 4))\<lparr>speed := 61\<rparr>)) = Some 60"
  using eating_tick [of "playingState lineBody (cell 5 4)" UP exampleDraws 1]
    eating_tick [of "(playingState lineBody (cell 5 4))\<lparr>speed := 61\<rparr>" UP exampleDraws 1]
  by (simp add: example_defs lineBody_def grownState_def tick_def isAtCoordinate_def
      generateFood_def generateFood_loop_unfold drawn_def exampleDraws_def Let_def)

text \<open>
  The claim as stated, for every such state, fails when the grown body fills the grid:
  on the state \<open>fullState\<close>, which keeps every invariant of the data model, the new head
  is the food and hits nothing, yet no cell is free for the new food, every draw is
  rejected and the tick never returns, even with a random source that draws every cell
  of the grid.
\<close>

theorem full_grid_tick_never_returns:
  "status fullState = PLAYING \<and> snake fullState \<noteq> [] \<and>
   moveHead LEFT (hd (snake fullState)) = food fullState \<and>
   inGrid (moveHead LEFT (hd (snake fullState))) \<and>
   \<not> isAtCoordinate (moveHead LEFT (hd (snake fullState))) (snake fullState) \<and>
   tick fairDraws LEFT fullState = None"
proof -
  have "tick fairDraws LEFT fullState = None"
    by (rule tick_fullState) (rule fairDraws_range)
  moreover have nh: "moveHead LEFT (hd (snake fullState)) = food fullState"
    by (simp add: fullState_def hd_fullBody moveHead_def cell_def)
  moreover have "\<not> isAtCoordinate (moveHead LEFT (hd (snake fullState))) (snake fullState)"
    unfolding nh by (simp add: isAtCoordinate_iff fullState_def origin_off_fullBody)
  moreover have "inGrid (moveHead LEFT (hd (snake fullState)))"
    unfolding nh by (simp add: fullState_def inGrid_def cell_def GRID_SIZE_def)
  ultimately show ?thesis
    by (simp add: fullState_def fullBody_nonempty)
qed

end
